theory Spec2Isabelle
  imports Complex_Main
begin

section \<open>Text primitives of the host language\<close>

text \<open>
  A JavaScript string is modelled as a \<^typ>\<open>string\<close>: one \<^typ>\<open>char\<close> per code unit,
  restricted to the code units below 256. The functions below are the string methods
  that \<^verbatim>\<open>src/lib/utils.ts\<close> calls, with the semantics ECMAScript gives them.
\<close>

abbreviation LF :: char where
  "LF \<equiv> CHR 0x0A"

abbreviation BSL :: char where
  "BSL \<equiv> CHR 0x5C"

definition is_space :: "char \<Rightarrow> bool" where
  \<comment> \<open>WhiteSpace and LineTerminator code units below 256: TAB, LF, VT, FF, CR, SP, NBSP.\<close>
  "is_space c \<longleftrightarrow>
     c = CHR 0x09 \<or> c = CHR 0x0A \<or> c = CHR 0x0B \<or> c = CHR 0x0C \<or> c = CHR 0x0D \<or>
     c = CHR 0x20 \<or> c = CHR 0xA0"

definition trim :: "string \<Rightarrow> string" where
  \<comment> \<open>\<^verbatim>\<open>s.trim()\<close>\<close>
  "trim s = rev (dropWhile is_space (rev (dropWhile is_space s)))"

definition startsWith :: "string \<Rightarrow> string \<Rightarrow> bool" where
  \<comment> \<open>\<^verbatim>\<open>s.startsWith(p)\<close>\<close>
  "startsWith s p \<longleftrightarrow> take (length p) s = p"

definition substring :: "string \<Rightarrow> nat \<Rightarrow> string" where
  \<comment> \<open>\<^verbatim>\<open>s.substring(n)\<close>\<close>
  "substring s n = drop n s"

fun includes_str :: "string \<Rightarrow> string \<Rightarrow> bool" where
  \<comment> \<open>\<^verbatim>\<open>s.includes(p)\<close>\<close>
  "includes_str [] p = (p = [])"
| "includes_str (c # cs) p = (startsWith (c # cs) p \<or> includes_str cs p)"

fun split_newline :: "string \<Rightarrow> string list" where
  \<comment> \<open>\<^verbatim>\<open>s.split("\n")\<close>: never empty; the last element is what follows the last newline.\<close>
  "split_newline [] = [[]]"
| "split_newline (c # cs) =
     (if c = LF then [] # split_newline cs
      else (case split_newline cs of
              l # ls \<Rightarrow> (c # l) # ls
            | [] \<Rightarrow> [[c]]))"

fun replace_escaped_newlines :: "string \<Rightarrow> string" where
  \<comment> \<open>\<^verbatim>\<open>s.replace(/\\n/g, "\n")\<close>: every backslash followed by \<open>n\<close>, scanning left to right,
      becomes one newline.\<close>
  "replace_escaped_newlines (a # b # cs) =
     (if a = BSL \<and> b = CHR ''n'' then LF # replace_escaped_newlines cs
      else a # replace_escaped_newlines (b # cs))"
| "replace_escaped_newlines cs = cs"

section \<open>Values of the host language\<close>

text \<open>
  The values \<^verbatim>\<open>JSON.parse\<close> can return, and \<^verbatim>\<open>undefined\<close>, which a property read
  of a missing field gives. A number is carried as the value of its literal; the host
  rounds it to a double, which is zero exactly when the magnitude is at most \<open>2\<^sup>-\<^sup>1\<^sup>0\<^sup>7\<^sup>5\<close>.
\<close>

datatype jsval =
    JUndefined
  | JNull
  | JBool bool
  | JNum rat
  | JStr string
  | JArr "jsval list"
  | JObj "(string \<times> jsval) list"

fun truthy :: "jsval \<Rightarrow> bool" where
  \<comment> \<open>ToBoolean\<close>
  "truthy JUndefined = False"
| "truthy JNull = False"
| "truthy (JBool b) = b"
| "truthy (JNum q) = (\<bar>q\<bar> > 1 / 2 ^ 1075)"
| "truthy (JStr s) = (s \<noteq> [])"
| "truthy (JArr _) = True"
| "truthy (JObj _) = True"

definition js_or :: "jsval \<Rightarrow> jsval \<Rightarrow> jsval" where
  \<comment> \<open>\<^verbatim>\<open>a || b\<close>\<close>
  "js_or a b = (if truthy a then a else b)"

fun get_prop :: "jsval \<Rightarrow> string \<Rightarrow> jsval" where
  \<comment> \<open>\<^verbatim>\<open>data.name\<close> for the field names the decoder reads (none of them is on a prototype);
      the read of a property of \<^verbatim>\<open>null\<close> or \<^verbatim>\<open>undefined\<close> throws and is guarded by
      the caller.\<close>
  "get_prop (JObj kvs) name = (case map_of kvs name of Some v \<Rightarrow> v | None \<Rightarrow> JUndefined)"
| "get_prop _ name = JUndefined"

definition nullish :: "jsval \<Rightarrow> bool" where
  "nullish v \<longleftrightarrow> v = JNull \<or> v = JUndefined"

section \<open>The streaming decoder of \<^verbatim>\<open>callChatAPI\<close>\<close>

text \<open>
  The two variables that the decoder updates while it runs: the correlation id recorded
  so far and the calls made to the sink \<^verbatim>\<open>onStreamChunk\<close>, oldest first. The sink is
  taken to return normally.
\<close>

record decoder =
  agentMessageId :: jsval
  emitted :: "string list"

definition onStreamChunk :: "string \<Rightarrow> decoder \<Rightarrow> decoder" where
  "onStreamChunk chunk st = st\<lparr>emitted := emitted st @ [chunk]\<rparr>"

text \<open>
  The body of the \<^verbatim>\<open>try\<close> block (lines 161 to 177, and again 202 to 214). \<^verbatim>\<open>JSON.parse\<close>
  is the parameter \<open>parse\<close>, \<open>None\<close> being its SyntaxError. \<open>Inl\<close> is a throw, with the
  state reached when it happened: a property read of \<^verbatim>\<open>null\<close> and the call of
  \<^verbatim>\<open>replace\<close> on a value that is not a string are TypeErrors.
\<close>

definition try_data :: "(string \<Rightarrow> jsval option) \<Rightarrow> string \<Rightarrow> decoder \<Rightarrow> decoder + decoder" where
  "try_data parse dataContent st =
     (case parse dataContent of
        None \<Rightarrow> Inl st
      | Some data \<Rightarrow>
          if nullish data then Inl st
          else
            let st1 = (if get_prop data ''type'' = JStr ''end_metadata''
                          \<and> truthy (get_prop data ''agent_message_id'')
                       then st\<lparr>agentMessageId := get_prop data ''agent_message_id''\<rparr>
                       else st);
                chunk = js_or (js_or (js_or (js_or (get_prop data ''response'')
                                                   (get_prop data ''message''))
                                            (get_prop data ''chunk''))
                                     (get_prop data ''content''))
                              (JStr '''')
            in if truthy chunk
               then (case chunk of
                       JStr s \<Rightarrow> Inr (onStreamChunk (replace_escaped_newlines s) st1)
                     | _ \<Rightarrow> Inl st1)
               else Inr st1)"

definition catch_data :: "string \<Rightarrow> decoder \<Rightarrow> decoder" where
  \<comment> \<open>the \<^verbatim>\<open>catch (parseError)\<close> block, lines 178 to 184\<close>
  "catch_data dataContent st =
     (if trim dataContent \<noteq> []
      then onStreamChunk (replace_escaped_newlines dataContent) st
      else st)"

definition data_event :: "(string \<Rightarrow> jsval option) \<Rightarrow> string \<Rightarrow> decoder \<Rightarrow> decoder" where
  "data_event parse dataContent st =
     (case try_data parse dataContent st of
        Inr st' \<Rightarrow> st'
      | Inl st' \<Rightarrow> catch_data dataContent st')"

text \<open>The \<^verbatim>\<open>for (const line of lines)\<close> loop, lines 150 to 194; \<^verbatim>\<open>break\<close> leaves it.\<close>

fun for_lines :: "(string \<Rightarrow> jsval option) \<Rightarrow> string list \<Rightarrow> decoder \<Rightarrow> decoder" where
  "for_lines parse [] st = st"
| "for_lines parse (line # rest) st =
     (if trim line \<noteq> [] then
        if startsWith line ''data: '' then
          let dataContent = substring line 6 in
          if includes_str dataContent ''[DONE]'' then st
          else for_lines parse rest (data_event parse dataContent st)
        else if trim line \<noteq> [] \<and> \<not> startsWith line ''event:'' \<and> \<not> startsWith line ''id:''
        then for_lines parse rest (onStreamChunk (replace_escaped_newlines line) st)
        else for_lines parse rest st
      else for_lines parse rest st)"

text \<open>
  What \<^verbatim>\<open>reader.read()\<close> delivers: a chunk, given here by the text that
  \<^verbatim>\<open>decoder.decode(value, { stream: true })\<close> returns for it, or a rejection. A body is
  the list of its reads; the read after the last one reports \<^verbatim>\<open>done\<close>.
\<close>

datatype read = Chunk string | ReadError

text \<open>
  The \<^verbatim>\<open>while (true)\<close> loop, lines 140 to 195, one iteration per read. \<open>Inl\<close> is the
  rejected read, with the state reached; \<open>Inr\<close> is the exit at \<^verbatim>\<open>done\<close>, with the buffer.
\<close>

fun read_loop ::
  "(string \<Rightarrow> jsval option) \<Rightarrow> read list \<Rightarrow> string \<Rightarrow> decoder \<Rightarrow> decoder + (string \<times> decoder)" where
  "read_loop parse [] buffer st = Inr (buffer, st)"
| "read_loop parse (ReadError # rest) buffer st = Inl st"
| "read_loop parse (Chunk text # rest) buffer st =
     (let lines = split_newline (buffer @ text)
      in read_loop parse rest (last lines) (for_lines parse (butlast lines) st))"

definition flush_buffer :: "(string \<Rightarrow> jsval option) \<Rightarrow> string \<Rightarrow> decoder \<Rightarrow> decoder" where
  \<comment> \<open>lines 197 to 224\<close>
  "flush_buffer parse buffer st =
     (if trim buffer \<noteq> [] then
        if startsWith buffer ''data: '' then
          let dataContent = substring buffer 6 in
          if \<not> includes_str dataContent ''[DONE]'' then data_event parse dataContent st
          else st
        else st
      else st)"

definition initial :: decoder where
  "initial = \<lparr>agentMessageId = JNull, emitted = []\<rparr>"

definition decode_stream :: "(string \<Rightarrow> jsval option) \<Rightarrow> read list \<Rightarrow> decoder + decoder" where
  \<comment> \<open>lines 137 to 226: \<open>Inr\<close> is the normal return, \<open>Inl\<close> the rejected read\<close>
  "decode_stream parse reads =
     (case read_loop parse reads [] initial of
        Inl st \<Rightarrow> Inl st
      | Inr (buffer, st) \<Rightarrow> Inr (flush_buffer parse buffer st))"

section \<open>\<^verbatim>\<open>callChatAPI\<close>\<close>

record response =
  ok :: bool
  status :: nat
  content_type :: "string option"
  body :: "read list option"

datatype fetch_result = Rejected | Resolved response

text \<open>
  The errors of the repository: the built-in \<^verbatim>\<open>Error\<close> with its message, and the class
  \<^verbatim>\<open>ApiError\<close> of \<^verbatim>\<open>src/lib/api.ts\<close> (lines 350 to 359) with message, status and endpoint.
\<close>

datatype js_error =
    Error string
  | ApiError string "nat option" "string option"

definition json_content_type :: "response \<Rightarrow> bool" where
  \<comment> \<open>\<^verbatim>\<open>contentType && contentType.includes("application/json")\<close>, lines 117 and 118\<close>
  "json_content_type r \<longleftrightarrow>
     (case content_type r of
        Some contentType \<Rightarrow> contentType \<noteq> [] \<and> includes_str contentType ''application/json''
      | None \<Rightarrow> False)"

definition response_json :: "(string \<Rightarrow> jsval option) \<Rightarrow> response \<Rightarrow> jsval option" where
  \<comment> \<open>\<^verbatim>\<open>await response.json()\<close>: the whole body, parsed; \<open>None\<close> is its rejection\<close>
  "response_json parse r =
     (case body r of
        None \<Rightarrow> parse []
      | Some reads \<Rightarrow>
          if ReadError \<in> set reads then None
          else parse (concat (map (\<lambda>rd. case rd of Chunk t \<Rightarrow> t | ReadError \<Rightarrow> []) reads)))"

definition json_document :: "jsval \<Rightarrow> decoder + decoder" where
  \<comment> \<open>lines 120 to 126, from the parsed document\<close>
  "json_document data =
     (if nullish data then Inl initial
      else
        let responseText = js_or (js_or (js_or (get_prop data ''response'')
                                               (get_prop data ''message''))
                                        (get_prop data ''content''))
                                 data;
            result = js_or (get_prop data ''agent_message_id'') JNull
        in if truthy responseText
           then (case responseText of
                   JStr s \<Rightarrow> Inr (onStreamChunk (replace_escaped_newlines s)
                                   (initial\<lparr>agentMessageId := result\<rparr>))
                 | _ \<Rightarrow> Inl initial)
           else Inr (initial\<lparr>agentMessageId := result\<rparr>))"

definition chat_body :: "(string \<Rightarrow> jsval option) \<Rightarrow> fetch_result \<Rightarrow> decoder + decoder" where
  \<comment> \<open>the \<^verbatim>\<open>try\<close> block of \<^verbatim>\<open>callChatAPI\<close>, lines 99 to 226; \<open>Inl\<close> is any throw\<close>
  "chat_body parse fr =
     (case fr of
        Rejected \<Rightarrow> Inl initial
      | Resolved r \<Rightarrow>
          if \<not> ok r then Inl initial
          else if json_content_type r
          then (case response_json parse r of
                  None \<Rightarrow> Inl initial
                | Some data \<Rightarrow> json_document data)
          else (case body r of
                  None \<Rightarrow> Inl initial
                | Some reads \<Rightarrow> decode_stream parse reads))"

text \<open>
  \<^verbatim>\<open>callChatAPI\<close>: the calls made to the sink, and either the value returned or the
  error thrown by the outer \<^verbatim>\<open>catch\<close>, which replaces whatever was thrown inside.
\<close>

definition callChatAPI ::
  "(string \<Rightarrow> jsval option) \<Rightarrow> fetch_result \<Rightarrow> string list \<times> (js_error + jsval)" where
  "callChatAPI parse fr =
     (case chat_body parse fr of
        Inr st \<Rightarrow> (emitted st, Inr (agentMessageId st))
      | Inl st \<Rightarrow> (emitted st, Inl (Error ''Failed to get response from chat API'')))"

section \<open>The data-fetching wrappers of \<^verbatim>\<open>src/lib/api.ts\<close>\<close>

datatype TimeFilter = Today | Week | Month

record AnalyticsQueryParams =
  start_date :: "string option"
  end_date :: "string option"
  timeFilter :: "TimeFilter option"

definition given :: "string option \<Rightarrow> bool" where
  \<comment> \<open>truthiness of an optional string: defined and not empty\<close>
  "given p \<longleftrightarrow> (case p of Some s \<Rightarrow> s \<noteq> [] | None \<Rightarrow> False)"

definition queryParams ::
  "(TimeFilter \<Rightarrow> string \<times> string) \<Rightarrow> AnalyticsQueryParams \<Rightarrow> (string \<times> string) list" where
  \<comment> \<open>lines 258 to 269; \<open>getDateRangeFromFilter\<close> reads the clock and is a parameter\<close>
  "queryParams getDateRangeFromFilter params =
     (let q1 = (case start_date params of
                  Some s \<Rightarrow> if s \<noteq> [] then [(''start_date'', s)] else []
                | None \<Rightarrow> []);
          q2 = q1 @ (case end_date params of
                       Some s \<Rightarrow> if s \<noteq> [] then [(''end_date'', s)] else []
                     | None \<Rightarrow> [])
      in case timeFilter params of
           Some tf \<Rightarrow>
             if \<not> given (start_date params) \<and> \<not> given (end_date params)
             then [(''start_date'', fst (getDateRangeFromFilter tf)),
                   (''end_date'', snd (getDateRangeFromFilter tf))]
             else q2
         | None \<Rightarrow> q2)"

fun join_amp :: "string list \<Rightarrow> string" where
  "join_amp [] = []"
| "join_amp [x] = x"
| "join_amp (x # y # ys) = x @ ''&'' @ join_amp (y # ys)"

definition buildQueryString :: "(string \<Rightarrow> string) \<Rightarrow> (string \<times> string) list \<Rightarrow> string" where
  \<comment> \<open>lines 217 to 229; \<open>encode\<close> is the form encoding of \<^verbatim>\<open>URLSearchParams\<close>\<close>
  "buildQueryString encode params =
     join_amp (map (\<lambda>(key, v). encode key @ ''='' @ encode v)
                   (filter (\<lambda>(key, v). v \<noteq> []) params))"

definition request_url ::
  "string \<Rightarrow> string \<Rightarrow> (TimeFilter \<Rightarrow> string \<times> string) \<Rightarrow> (string \<Rightarrow> string) \<Rightarrow>
   AnalyticsQueryParams \<Rightarrow> string" where
  "request_url API_BASE_URL path getDateRangeFromFilter encode params =
     (let queryString = buildQueryString encode (queryParams getDateRangeFromFilter params)
      in API_BASE_URL @ path @ (if queryString \<noteq> [] then ''?'' @ queryString else []))"

text \<open>What is thrown inside the \<^verbatim>\<open>try\<close> block of a wrapper, before its \<^verbatim>\<open>catch\<close>.\<close>

datatype failure = NetworkFailure | BadStatus nat | BodyFailure

definition fetch_data :: "(string \<Rightarrow> jsval option) \<Rightarrow> fetch_result \<Rightarrow> failure + jsval" where
  \<comment> \<open>lines 276 to 285 and 327 to 336, from the outcome of \<^verbatim>\<open>fetch(url)\<close>\<close>
  "fetch_data parse fr =
     (case fr of
        Rejected \<Rightarrow> Inl NetworkFailure
      | Resolved r \<Rightarrow>
          if \<not> ok r then Inl (BadStatus (status r))
          else (case response_json parse r of
                  None \<Rightarrow> Inl BodyFailure
                | Some data \<Rightarrow> Inr data))"

definition fetchAnalytics ::
  "(string \<Rightarrow> jsval option) \<Rightarrow> (string \<Rightarrow> fetch_result) \<Rightarrow> string \<Rightarrow>
   (TimeFilter \<Rightarrow> string \<times> string) \<Rightarrow> (string \<Rightarrow> string) \<Rightarrow>
   AnalyticsQueryParams \<Rightarrow> js_error + jsval" where
  "fetchAnalytics parse fetch API_BASE_URL getDateRangeFromFilter encode params =
     (case fetch_data parse
             (fetch (request_url API_BASE_URL ''/api/lyzr/analytics''
                       getDateRangeFromFilter encode params)) of
        Inr data \<Rightarrow> Inr data
      | Inl error \<Rightarrow> Inl (Error ''Failed to fetch analytics data''))"

definition fetchHubSpotSessions ::
  "(string \<Rightarrow> jsval option) \<Rightarrow> (string \<Rightarrow> fetch_result) \<Rightarrow> string \<Rightarrow>
   (TimeFilter \<Rightarrow> string \<times> string) \<Rightarrow> (string \<Rightarrow> string) \<Rightarrow>
   AnalyticsQueryParams \<Rightarrow> js_error + jsval" where
  "fetchHubSpotSessions parse fetch API_BASE_URL getDateRangeFromFilter encode params =
     (case fetch_data parse
             (fetch (request_url API_BASE_URL ''/api/lyzr/hubspot-sessions''
                       getDateRangeFromFilter encode params)) of
        Inr data \<Rightarrow> Inr data
      | Inl error \<Rightarrow> Inl (Error ''Failed to fetch HubSpot sessions data''))"

text \<open>
  \<^verbatim>\<open>handleApiError\<close>, lines 367 to 374. Its argument is \<^verbatim>\<open>unknown\<close>: an error object or
  any other value. It never returns; the result here is the error it throws.
\<close>

datatype thrown = ThrownError js_error | ThrownValue jsval

fun handleApiError :: "thrown \<Rightarrow> string \<Rightarrow> js_error" where
  "handleApiError (ThrownError (ApiError m s e)) endpoint = ApiError m s e"
| "handleApiError (ThrownError (Error m)) endpoint = ApiError m None (Some endpoint)"
| "handleApiError (ThrownValue v) endpoint = ApiError ''Unknown API error'' None (Some endpoint)"

fun is_ApiError :: "js_error \<Rightarrow> bool" where
  \<comment> \<open>\<^verbatim>\<open>error instanceof ApiError\<close>\<close>
  "is_ApiError (ApiError m s e) = True"
| "is_ApiError (Error m) = False"

fun endpoint_of :: "js_error \<Rightarrow> string option" where
  \<comment> \<open>\<^verbatim>\<open>error.endpoint\<close>, \<open>None\<close> being \<^verbatim>\<open>undefined\<close>\<close>
  "endpoint_of (ApiError m s e) = e"
| "endpoint_of (Error m) = None"

section \<open>A reference \<^verbatim>\<open>JSON.parse\<close>\<close>

text \<open>
  The decoder is defined for any \<open>parse\<close>. For concrete lines the theory uses
  \<open>json_parse\<close>, a parser of the JSON grammar on the modelled alphabet: whitespace,
  the three literals, numbers, strings with their escapes, arrays and objects. An
  escape \<^verbatim>\<open>\uXXXX\<close> of a code unit above 255 is outside the alphabet and is refused
  here. The parser carries fuel; \<open>json_parse\<close> gives it more than the length of the text.
\<close>

definition json_ws :: "char \<Rightarrow> bool" where
  "json_ws c \<longleftrightarrow> c = CHR 0x20 \<or> c = CHR 0x09 \<or> c = CHR 0x0A \<or> c = CHR 0x0D"

definition skip_ws :: "string \<Rightarrow> string" where
  "skip_ws s = dropWhile json_ws s"

definition is_digit :: "char \<Rightarrow> bool" where
  "is_digit c \<longleftrightarrow> 48 \<le> (of_char c :: nat) \<and> (of_char c :: nat) \<le> 57"

definition digit_val :: "char \<Rightarrow> nat" where
  "digit_val c = of_char c - 48"

definition digits_val :: "string \<Rightarrow> nat" where
  "digits_val ds = foldl (\<lambda>acc d. 10 * acc + digit_val d) 0 ds"

definition hex_val :: "char \<Rightarrow> nat option" where
  "hex_val c =
     (if is_digit c then Some (digit_val c)
      else if 97 \<le> (of_char c :: nat) \<and> (of_char c :: nat) \<le> 102 then Some (of_char c - 87)
      else if 65 \<le> (of_char c :: nat) \<and> (of_char c :: nat) \<le> 70 then Some (of_char c - 55)
      else None)"

definition escape_char :: "char \<Rightarrow> char option" where
  "escape_char e =
     (if e = CHR 0x22 then Some (CHR 0x22)
      else if e = BSL then Some BSL
      else if e = CHR ''/'' then Some (CHR ''/'')
      else if e = CHR ''b'' then Some (CHR 0x08)
      else if e = CHR ''f'' then Some (CHR 0x0C)
      else if e = CHR ''n'' then Some LF
      else if e = CHR ''r'' then Some (CHR 0x0D)
      else if e = CHR ''t'' then Some (CHR 0x09)
      else None)"

definition cons_fst :: "'a \<Rightarrow> ('a list \<times> 'b) option \<Rightarrow> ('a list \<times> 'b) option" where
  "cons_fst x r = map_option (\<lambda>(xs, rest). (x # xs, rest)) r"

fun parse_chars :: "string \<Rightarrow> (string \<times> string) option" where
  \<comment> \<open>the characters of a string literal after its opening quote, and what follows the closing one\<close>
  "parse_chars [] = None"
| "parse_chars (c # cs) =
     (if c = CHR 0x22 then Some ([], cs)
      else if c = BSL then
        (case cs of
           [] \<Rightarrow> None
         | e # cs1 \<Rightarrow>
             if e = CHR ''u'' then
               (case cs1 of
                  h1 # h2 # h3 # h4 # cs2 \<Rightarrow>
                    (case (hex_val h1, hex_val h2, hex_val h3, hex_val h4) of
                       (Some a, Some b, Some c, Some d) \<Rightarrow>
                         if a = 0 \<and> b = 0 then cons_fst (char_of (16 * c + d)) (parse_chars cs2)
                         else None
                     | _ \<Rightarrow> None)
                | _ \<Rightarrow> None)
             else
               (case escape_char e of
                  None \<Rightarrow> None
                | Some d \<Rightarrow> cons_fst d (parse_chars cs1)))
      else if (of_char c :: nat) < 0x20 then None
      else cons_fst c (parse_chars cs))"

definition parse_number :: "string \<Rightarrow> (rat \<times> string) option" where
  "parse_number s =
     (let neg = (s \<noteq> [] \<and> hd s = CHR ''-'');
          s1 = (if neg then tl s else s);
          ip = takeWhile is_digit s1;
          s2 = dropWhile is_digit s1;
          has_frac = (s2 \<noteq> [] \<and> hd s2 = CHR ''.'');
          fp = (if has_frac then takeWhile is_digit (tl s2) else []);
          s3 = (if has_frac then dropWhile is_digit (tl s2) else s2);
          has_exp = (s3 \<noteq> [] \<and> (hd s3 = CHR ''e'' \<or> hd s3 = CHR ''E''));
          s4 = (if has_exp then tl s3 else s3);
          eneg = (has_exp \<and> s4 \<noteq> [] \<and> hd s4 = CHR ''-'');
          s5 = (if has_exp \<and> s4 \<noteq> [] \<and> (hd s4 = CHR ''-'' \<or> hd s4 = CHR ''+'') then tl s4 else s4);
          ep = (if has_exp then takeWhile is_digit s5 else []);
          s6 = (if has_exp then dropWhile is_digit s5 else s3);
          mant = (of_nat (digits_val ip) + of_nat (digits_val fp) / 10 ^ length fp :: rat);
          scaled = (if eneg then mant / 10 ^ digits_val ep else mant * 10 ^ digits_val ep)
      in if ip = [] \<or> (length ip > 1 \<and> hd ip = CHR ''0'') \<or> (has_frac \<and> fp = [])
            \<or> (has_exp \<and> ep = [])
         then None
         else Some (if neg then - scaled else scaled, s6))"

fun parse_value :: "nat \<Rightarrow> string \<Rightarrow> (jsval \<times> string) option"
  and parse_elements :: "nat \<Rightarrow> string \<Rightarrow> (jsval list \<times> string) option"
  and parse_members :: "nat \<Rightarrow> string \<Rightarrow> ((string \<times> jsval) list \<times> string) option" where
  "parse_value 0 s = None"
| "parse_value (Suc n) s =
     (case skip_ws s of
        [] \<Rightarrow> None
      | c # cs \<Rightarrow>
          if c = CHR 0x22 then map_option (\<lambda>(t, rest). (JStr t, rest)) (parse_chars cs)
          else if c = CHR ''['' then
            (if skip_ws cs \<noteq> [] \<and> hd (skip_ws cs) = CHR '']'' then Some (JArr [], tl (skip_ws cs))
             else map_option (\<lambda>(vs, rest). (JArr vs, rest)) (parse_elements n cs))
          else if c = CHR ''{'' then
            (if skip_ws cs \<noteq> [] \<and> hd (skip_ws cs) = CHR ''}'' then Some (JObj [], tl (skip_ws cs))
             else map_option (\<lambda>(kvs, rest). (JObj (rev kvs), rest)) (parse_members n cs))
          else if startsWith (c # cs) ''true'' then Some (JBool True, drop 4 (c # cs))
          else if startsWith (c # cs) ''false'' then Some (JBool False, drop 5 (c # cs))
          else if startsWith (c # cs) ''null'' then Some (JNull, drop 4 (c # cs))
          else map_option (\<lambda>(q, rest). (JNum q, rest)) (parse_number (c # cs)))"
| "parse_elements 0 s = None"
| "parse_elements (Suc n) s =
     (case parse_value n s of
        None \<Rightarrow> None
      | Some (v, rest) \<Rightarrow>
          (case skip_ws rest of
             [] \<Rightarrow> None
           | c # cs \<Rightarrow>
               if c = CHR '','' then cons_fst v (parse_elements n cs)
               else if c = CHR '']'' then Some ([v], cs)
               else None))"
| "parse_members 0 s = None"
| "parse_members (Suc n) s =
     (case skip_ws s of
        [] \<Rightarrow> None
      | q # s1 \<Rightarrow>
          if q \<noteq> CHR 0x22 then None
          else
            (case parse_chars s1 of
               None \<Rightarrow> None
             | Some (k, s2) \<Rightarrow>
                 (case skip_ws s2 of
                    [] \<Rightarrow> None
                  | colon # s3 \<Rightarrow>
                      if colon \<noteq> CHR '':'' then None
                      else
                        (case parse_value n s3 of
                           None \<Rightarrow> None
                         | Some (v, s4) \<Rightarrow>
                             (case skip_ws s4 of
                                [] \<Rightarrow> None
                              | c # cs \<Rightarrow>
                                  if c = CHR '','' then cons_fst (k, v) (parse_members n cs)
                                  else if c = CHR ''}'' then Some ([(k, v)], cs)
                                  else None)))))"

definition json_parse :: "string \<Rightarrow> jsval option" where
  \<comment> \<open>an object keeps its members last first, so that a repeated key reads as its last value\<close>
  "json_parse s =
     (case parse_value (Suc (length s)) s of
        None \<Rightarrow> None
      | Some (v, rest) \<Rightarrow> if skip_ws rest = [] then Some v else None)"

section \<open>Notions used to state the properties\<close>

definition is_done_line :: "string \<Rightarrow> bool" where
  \<comment> \<open>a line at which the \<^verbatim>\<open>for\<close> loop executes \<^verbatim>\<open>break\<close>\<close>
  "is_done_line line \<longleftrightarrow>
     trim line \<noteq> [] \<and> startsWith line ''data: '' \<and> includes_str (substring line 6) ''[DONE]''"

definition recorded_id :: "(string \<Rightarrow> jsval option) \<Rightarrow> string \<Rightarrow> jsval option" where
  \<comment> \<open>the \<^verbatim>\<open>agent_message_id\<close> of a line that is an \<^verbatim>\<open>end_metadata\<close> data event carrying a
      truthy one\<close>
  "recorded_id parse line =
     (if trim line \<noteq> [] \<and> startsWith line ''data: ''
         \<and> \<not> includes_str (substring line 6) ''[DONE]''
      then (case parse (substring line 6) of
              Some data \<Rightarrow>
                if \<not> nullish data \<and> get_prop data ''type'' = JStr ''end_metadata''
                   \<and> truthy (get_prop data ''agent_message_id'')
                then Some (get_prop data ''agent_message_id'')
                else None
            | None \<Rightarrow> None)
      else None)"

fun processed_lines :: "read list \<Rightarrow> string \<Rightarrow> string list" where
  \<comment> \<open>the lines that reach line processing, in order: per chunk the complete lines up to
      the first terminal marker, and at the end of the stream the carried buffer\<close>
  "processed_lines [] buffer = [buffer]"
| "processed_lines (ReadError # rest) buffer = []"
| "processed_lines (Chunk t # rest) buffer =
     (let lines = split_newline (buffer @ t)
      in takeWhile (\<lambda>l. \<not> is_done_line l) (butlast lines) @ processed_lines rest (last lines))"

definition line_step :: "(string \<Rightarrow> jsval option) \<Rightarrow> string \<Rightarrow> decoder \<Rightarrow> decoder" where
  \<comment> \<open>one iteration of the \<^verbatim>\<open>for\<close> loop that does not \<^verbatim>\<open>break\<close>\<close>
  "line_step parse line st =
     (if trim line \<noteq> [] then
        if startsWith line ''data: '' then data_event parse (substring line 6) st
        else if \<not> startsWith line ''event:'' \<and> \<not> startsWith line ''id:''
        then onStreamChunk (replace_escaped_newlines line) st
        else st
      else st)"

definition last_id :: "jsval list \<Rightarrow> jsval" where
  "last_id ids = (if ids = [] then JNull else last ids)"

definition stream_text :: "read list \<Rightarrow> string" where
  "stream_text reads = concat (map (\<lambda>rd. case rd of Chunk t \<Rightarrow> t | ReadError \<Rightarrow> []) reads)"

definition text_fields :: "jsval \<Rightarrow> jsval list" where
  \<comment> \<open>the four fields of a data event, in the order of the \<^verbatim>\<open>||\<close> chain of lines 168 to 173\<close>
  "text_fields data =
     [get_prop data ''response'', get_prop data ''message'', get_prop data ''chunk'',
      get_prop data ''content'']"

definition normalized :: "decoder \<Rightarrow> bool" where
  "normalized st \<longleftrightarrow>
     (\<forall>e \<in> set (emitted st). \<exists>s. s \<noteq> [] \<and> e = replace_escaped_newlines s)"

text \<open>Sample responses: a stream with a reader, and a single JSON document.\<close>

definition event_stream :: "read list \<Rightarrow> response" where
  "event_stream reads =
     \<lparr>ok = True, status = 200, content_type = Some ''text/event-stream'', body = Some reads\<rparr>"

definition stream_response :: "read list \<Rightarrow> fetch_result" where
  "stream_response reads = Resolved (event_stream reads)"

definition json_document_response :: "string \<Rightarrow> response" where
  "json_document_response doc =
     \<lparr>ok = True, status = 200, content_type = Some ''application/json; charset=utf-8'',
      body = Some [Chunk doc]\<rparr>"

definition json_response :: "string \<Rightarrow> fetch_result" where
  "json_response doc = Resolved (json_document_response doc)"

definition unreachable :: "string \<Rightarrow> fetch_result" where
  "unreachable url = Rejected"

definition server_error :: "string \<Rightarrow> fetch_result" where
  "server_error url =
     Resolved \<lparr>ok = False, status = 500, content_type = Some ''text/plain'', body = Some []\<rparr>"

definition fixed_range :: "TimeFilter \<Rightarrow> string \<times> string" where
  "fixed_range tf = (''2024-01-01'', ''2024-01-31'')"

definition plain_encode :: "string \<Rightarrow> string" where
  "plain_encode s = s"

definition no_params :: AnalyticsQueryParams where
  "no_params = \<lparr>start_date = None, end_date = None, timeFilter = None\<rparr>"

text \<open>Sample streams and payloads.\<close>

definition two_ids_reads :: "read list" where
  \<open>two_ids_reads =
     [Chunk (''data: {"type":"end_metadata","agent_message_id":"A"}'' @ [LF] @ ''data: {"type":"end_''),
      Chunk (''metadata","agent_message_id":"B"}'' @ [LF])]\<close>

definition marker_then_event_reads :: "read list" where
  \<open>marker_then_event_reads =
     [Chunk (''data: {"type":"end_metadata","agent_message_id":"A"}'' @ [LF] @ ''data: [DONE]'' @ [LF]),
      Chunk (''data: {"type":"end_metadata","agent_message_id":"B","content":"late"}'' @ [LF])]\<close>

definition marker_hello_one_chunk :: "read list" where
  "marker_hello_one_chunk = [Chunk (''data: [DONE]'' @ [LF] @ ''hello'' @ [LF])]"

definition marker_hello_two_chunks :: "read list" where
  "marker_hello_two_chunks = [Chunk (''data: [DONE]'' @ [LF]), Chunk (''hello'' @ [LF])]"

definition bad_json :: string where
  "bad_json = ''{bad json''"

definition bad_json_with_marker :: string where
  "bad_json_with_marker = ''{bad [DONE]''"

definition empty_response_payload :: string where
  \<open>empty_response_payload = ''{"response":"","message":"hi"}''\<close>

definition escaped_payload_one :: string where
  \<open>escaped_payload_one = ''{"response":"x'' @ [BSL] @ ''ny"}''\<close>

definition escaped_payload_two :: string where
  \<open>escaped_payload_two = ''{"response":"x'' @ [BSL, BSL] @ ''ny"}''\<close>

definition blank_lines_reads :: "read list" where
  "blank_lines_reads =
     [Chunk ([LF] @ ''   '' @ [LF] @ ''data:    '' @ [LF] @ ''hello'' @ [LF])]"

definition blank_line :: string where
  "blank_line = [CHR 0x20, CHR 0x09, CHR 0x20]"

definition empty_fields_payload :: string where
  \<open>empty_fields_payload = ''{"response":"","type":"ping"}''\<close>

definition priority_payload :: string where
  \<open>priority_payload = ''{"content":"c","chunk":"k","message":"m"}''\<close>

definition escaped_plain_line :: string where
  "escaped_plain_line = ''one'' @ [BSL] @ ''ntwo''"

definition document_with_text :: string where
  \<open>document_with_text = ''{"response":"line1'' @ [BSL, BSL] @ ''nline2","agent_message_id":"m1"}''\<close>

definition document_without_text :: string where
  \<open>document_without_text = ''{"agent_message_id":"m1"}''\<close>

definition empty_string_document :: string where
  "empty_string_document = [CHR 0x22, CHR 0x22]"

section \<open>Facts about the text primitives\<close>

lemma split_newline_not_Nil [simp]: "split_newline s \<noteq> []"
  by (induction s) (auto split: list.splits)

lemma trim_nonempty: "trim s \<noteq> [] \<Longrightarrow> s \<noteq> []"
  by (auto simp: trim_def)

lemma replace_escaped_newlines_nonempty: "s \<noteq> [] \<Longrightarrow> replace_escaped_newlines s \<noteq> []"
  by (induction s rule: replace_escaped_newlines.induct) auto

lemma hd_replace_escaped_newlines:
  "hd (replace_escaped_newlines (b # cs)) = (if b = BSL \<and> cs \<noteq> [] \<and> hd cs = CHR ''n'' then LF else b)"
  by (cases cs) auto

lemma replace_escaped_newlines_clean:
  "\<not> includes_str (replace_escaped_newlines s) [BSL, CHR ''n'']"
proof (induction s rule: replace_escaped_newlines.induct)
  case (1 a b cs)
  show ?case
  proof (cases "a = BSL \<and> b = CHR ''n''")
    case True
    with 1 show ?thesis by (simp add: startsWith_def)
  next
    case False
    have ne: "replace_escaped_newlines (b # cs) \<noteq> []"
      by (rule replace_escaped_newlines_nonempty) simp
    then obtain x xs where eq: "replace_escaped_newlines (b # cs) = x # xs"
      by (cases "replace_escaped_newlines (b # cs)") auto
    have "x = hd (replace_escaped_newlines (b # cs))" using eq by simp
    then have x: "x = (if b = BSL \<and> cs \<noteq> [] \<and> hd cs = CHR ''n'' then LF else b)"
      by (simp only: hd_replace_escaped_newlines)
    from False 1 eq x show ?thesis
      by (auto simp: startsWith_def split: if_splits)
  qed
qed (auto simp: startsWith_def)

section \<open>What reaches the sink\<close>

lemma normalized_initial: "normalized initial"
  by (simp add: normalized_def initial_def)

lemma normalized_onStreamChunk:
  "normalized st \<Longrightarrow> s \<noteq> [] \<Longrightarrow> normalized (onStreamChunk (replace_escaped_newlines s) st)"
  by (auto simp: normalized_def onStreamChunk_def)

lemma normalized_id_update: "normalized (st\<lparr>agentMessageId := v\<rparr>) = normalized st"
  by (simp add: normalized_def)

lemma normalized_try_data:
  "normalized st \<Longrightarrow> try_data parse dc st = r \<Longrightarrow> (case r of Inl st' \<Rightarrow> normalized st' | Inr st' \<Rightarrow> normalized st')"
  by (auto simp: try_data_def Let_def normalized_id_update normalized_onStreamChunk
           split: option.splits jsval.splits if_splits)

lemma normalized_catch_data: "normalized st \<Longrightarrow> normalized (catch_data dc st)"
  by (auto simp: catch_data_def normalized_onStreamChunk dest: trim_nonempty)

lemma normalized_data_event: "normalized st \<Longrightarrow> normalized (data_event parse dc st)"
  using normalized_try_data[of st parse dc "try_data parse dc st"]
  by (auto simp: data_event_def normalized_catch_data split: sum.splits)

lemma normalized_for_lines: "normalized st \<Longrightarrow> normalized (for_lines parse ls st)"
  by (induction ls arbitrary: st)
     (auto simp: Let_def normalized_data_event normalized_onStreamChunk dest: trim_nonempty)

lemma normalized_read_loop:
  "normalized st \<Longrightarrow> read_loop parse reads buf st = r \<Longrightarrow>
   (case r of Inl st' \<Rightarrow> normalized st' | Inr (b, st') \<Rightarrow> normalized st')"
proof (induction parse reads buf st arbitrary: r rule: read_loop.induct)
  case (3 parse chunk rest buffer st)
  then show ?case by (simp add: Let_def normalized_for_lines)
qed auto

lemma normalized_flush_buffer: "normalized st \<Longrightarrow> normalized (flush_buffer parse buf st)"
  by (auto simp: flush_buffer_def Let_def normalized_data_event)

lemma normalized_decode_stream:
  "decode_stream parse reads = r \<Longrightarrow> (case r of Inl st' \<Rightarrow> normalized st' | Inr st' \<Rightarrow> normalized st')"
  using normalized_read_loop[OF normalized_initial, of parse reads "[]" "read_loop parse reads [] initial"]
  by (auto simp: decode_stream_def normalized_flush_buffer split: sum.splits prod.splits)

lemma normalized_json_document:
  "json_document data = r \<Longrightarrow> (case r of Inl st' \<Rightarrow> normalized st' | Inr st' \<Rightarrow> normalized st')"
  by (auto simp: json_document_def Let_def normalized_id_update normalized_onStreamChunk normalized_initial
           split: jsval.splits if_splits)

lemma normalized_chat_body:
  "chat_body parse fr = r \<Longrightarrow> (case r of Inl st' \<Rightarrow> normalized st' | Inr st' \<Rightarrow> normalized st')"
  using normalized_decode_stream[of parse _ r] normalized_json_document[of _ r]
  by (auto simp: chat_body_def normalized_initial split: fetch_result.splits option.splits if_splits)

lemma callChatAPI_emitted:
  "e \<in> set (fst (callChatAPI parse fr)) \<Longrightarrow> \<exists>s. s \<noteq> [] \<and> e = replace_escaped_newlines s"
  using normalized_chat_body[of parse fr "chat_body parse fr"]
  by (auto simp: callChatAPI_def normalized_def split: sum.splits)


section \<open>The line loop and the read loop\<close>

lemma dropWhile_all_iff: "(\<forall>x \<in> set (dropWhile P xs). P x) \<longleftrightarrow> (\<forall>x \<in> set xs. P x)"
  by (induction xs) auto

lemma trim_nonempty_iff: "trim s \<noteq> [] \<longleftrightarrow> (\<exists>c \<in> set s. \<not> is_space c)"
proof -
  have "trim s = [] \<longleftrightarrow> (\<forall>x \<in> set (dropWhile is_space s). is_space x)"
    by (simp add: trim_def dropWhile_eq_Nil_conv)
  then show ?thesis using dropWhile_all_iff[of is_space s] by blast
qed

lemma data_line_facts:
  "trim (''data: '' @ payload) \<noteq> []" "startsWith (''data: '' @ payload) ''data: ''"
  "substring (''data: '' @ payload) 6 = payload"
  by (auto simp: trim_nonempty_iff is_space_def startsWith_def substring_def)

lemma for_lines_step:
  "\<not> is_done_line line \<Longrightarrow> for_lines parse (line # rest) st = for_lines parse rest (line_step parse line st)"
  by (auto simp: is_done_line_def line_step_def Let_def)

lemma for_lines_done: "is_done_line line \<Longrightarrow> for_lines parse (line # rest) st = st"
  by (auto simp: is_done_line_def Let_def)

declare for_lines.simps(2) [simp del]

lemma for_lines_takeWhile:
  "for_lines parse ls st = for_lines parse (takeWhile (\<lambda>l. \<not> is_done_line l) ls) st"
proof (induction ls arbitrary: st)
  case Nil
  show ?case by simp
next
  case (Cons l ls)
  show ?case
  proof (cases "is_done_line l")
    case True
    then show ?thesis by (simp add: for_lines_done)
  next
    case False
    then show ?thesis using Cons.IH by (simp add: for_lines_step)
  qed
qed

lemma for_lines_append:
  "\<forall>l \<in> set a. \<not> is_done_line l \<Longrightarrow>
   for_lines parse (a @ b) st = for_lines parse b (for_lines parse a st)"
  by (induction a arbitrary: st) (simp_all add: for_lines_step)

lemma processed_lines_not_Nil: "ReadError \<notin> set reads \<Longrightarrow> processed_lines reads buf \<noteq> []"
  by (induction reads buf rule: processed_lines.induct) (auto simp: Let_def)

lemma read_loop_processed:
  "ReadError \<notin> set reads \<Longrightarrow>
   read_loop parse reads buf st =
     Inr (last (processed_lines reads buf), for_lines parse (butlast (processed_lines reads buf)) st)"
proof (induction reads arbitrary: buf st)
  case Nil
  show ?case by simp
next
  case (Cons rd rest)
  show ?case
  proof (cases rd)
    case ReadError
    with Cons.prems show ?thesis by simp
  next
    case (Chunk t)
    define ls where "ls = split_newline (buf @ t)"
    define tw where "tw = takeWhile (\<lambda>l. \<not> is_done_line l) (butlast ls)"
    define P where "P = processed_lines rest (last ls)"
    from Cons.prems have ne: "P \<noteq> []" by (simp add: P_def processed_lines_not_Nil)
    have tw: "\<forall>l \<in> set tw. \<not> is_done_line l"
      unfolding tw_def by (auto dest: set_takeWhileD)
    have "read_loop parse (rd # rest) buf st = read_loop parse rest (last ls) (for_lines parse (butlast ls) st)"
      by (simp add: Chunk ls_def Let_def)
    also have "\<dots> = Inr (last P, for_lines parse (butlast P) (for_lines parse (butlast ls) st))"
      using Cons.IH[of "last ls"] Cons.prems by (simp add: P_def)
    also have "for_lines parse (butlast ls) st = for_lines parse tw st"
      unfolding tw_def by (rule for_lines_takeWhile)
    also have "for_lines parse (butlast P) (for_lines parse tw st) = for_lines parse (tw @ butlast P) st"
      using tw by (simp add: for_lines_append)
    finally show ?thesis
      using ne by (simp add: Chunk Let_def ls_def[symmetric] tw_def[symmetric] P_def[symmetric] butlast_append)
  qed
qed

lemma butlast_processed_lines_not_done:
  "ReadError \<notin> set reads \<Longrightarrow> l \<in> set (butlast (processed_lines reads buf)) \<Longrightarrow> \<not> is_done_line l"
proof (induction reads arbitrary: buf)
  case Nil
  then show ?case by simp
next
  case (Cons rd rest)
  show ?case
  proof (cases rd)
    case ReadError
    with Cons.prems show ?thesis by simp
  next
    case (Chunk t)
    let ?ls = "split_newline (buf @ t)"
    from Cons.prems(1) have ne: "processed_lines rest (last ?ls) \<noteq> []"
      by (simp add: processed_lines_not_Nil)
    from Cons.prems(2) ne have
      "l \<in> set (takeWhile (\<lambda>l. \<not> is_done_line l) (butlast ?ls)) \<or>
       l \<in> set (butlast (processed_lines rest (last ?ls)))"
      by (simp add: Chunk Let_def butlast_append)
    then show ?thesis
    proof
      assume "l \<in> set (takeWhile (\<lambda>l. \<not> is_done_line l) (butlast ?ls))"
      then show ?thesis by (auto dest: set_takeWhileD)
    next
      assume "l \<in> set (butlast (processed_lines rest (last ?ls)))"
      then show ?thesis using Cons.IH Cons.prems(1) by simp
    qed
  qed
qed

section \<open>The correlation id\<close>

lemma agentMessageId_onStreamChunk [simp]: "agentMessageId (onStreamChunk c st) = agentMessageId st"
  by (simp add: onStreamChunk_def)

lemma agentMessageId_data_event:
  "agentMessageId (data_event parse dc st) =
     (case parse dc of
        Some data \<Rightarrow>
          if \<not> nullish data \<and> get_prop data ''type'' = JStr ''end_metadata''
             \<and> truthy (get_prop data ''agent_message_id'')
          then get_prop data ''agent_message_id'' else agentMessageId st
      | None \<Rightarrow> agentMessageId st)"
  by (auto simp: data_event_def try_data_def catch_data_def Let_def
           split: option.splits jsval.splits sum.splits if_splits)

lemma agentMessageId_line_step:
  "\<not> is_done_line line \<Longrightarrow>
   agentMessageId (line_step parse line st) =
     (case recorded_id parse line of Some v \<Rightarrow> v | None \<Rightarrow> agentMessageId st)"
  by (auto simp: line_step_def recorded_id_def is_done_line_def agentMessageId_data_event
           split: option.splits)

lemma agentMessageId_for_lines:
  "\<forall>l \<in> set ls. \<not> is_done_line l \<Longrightarrow>
   agentMessageId (for_lines parse ls st) =
     (if List.map_filter (recorded_id parse) ls = [] then agentMessageId st
      else last (List.map_filter (recorded_id parse) ls))"
proof (induction ls arbitrary: st)
  case Nil
  show ?case by (simp add: map_filter_simps)
next
  case (Cons l ls)
  then show ?case
    by (auto simp: for_lines_step agentMessageId_line_step map_filter_simps split: option.splits)
qed

lemma agentMessageId_flush_buffer:
  "agentMessageId (flush_buffer parse buf st) =
     (case recorded_id parse buf of Some v \<Rightarrow> v | None \<Rightarrow> agentMessageId st)"
  by (auto simp: flush_buffer_def recorded_id_def agentMessageId_data_event Let_def
           split: option.splits)

lemma map_filter_append: "List.map_filter f (xs @ ys) = List.map_filter f xs @ List.map_filter f ys"
  by (simp add: List.map_filter_def)

lemma decode_stream_id:
  assumes "ReadError \<notin> set reads"
  shows "\<exists>st. decode_stream parse reads = Inr st \<and>
              agentMessageId st = last_id (List.map_filter (recorded_id parse) (processed_lines reads []))"
proof -
  let ?P = "processed_lines reads []"
  from assms have ne: "?P \<noteq> []" by (rule processed_lines_not_Nil)
  have nd: "\<forall>l \<in> set (butlast ?P). \<not> is_done_line l"
    using assms butlast_processed_lines_not_done by blast
  let ?st = "flush_buffer parse (last ?P) (for_lines parse (butlast ?P) initial)"
  have d: "decode_stream parse reads = Inr ?st"
    using read_loop_processed[OF assms, of parse "[]" initial] by (simp add: decode_stream_def)
  have split: "List.map_filter (recorded_id parse) ?P =
               List.map_filter (recorded_id parse) (butlast ?P) @ List.map_filter (recorded_id parse) [last ?P]"
    using ne by (metis map_filter_append append_butlast_last_id)
  have "agentMessageId ?st = last_id (List.map_filter (recorded_id parse) ?P)"
    unfolding split
    by (auto simp: agentMessageId_flush_buffer agentMessageId_for_lines[OF nd] last_id_def
                   map_filter_simps initial_def split: option.splits)
  with d show ?thesis by blast
qed

section \<open>Lines of the concatenated text\<close>

lemma split_newline_append:
  "split_newline (a @ b) = butlast (split_newline a) @ split_newline (last (split_newline a) @ b)"
proof (induction a)
  case Nil
  show ?case by simp
next
  case (Cons c cs)
  show ?case
  proof (cases "c = LF")
    case True
    then show ?thesis using Cons.IH by simp
  next
    case False
    obtain x xs where S: "split_newline cs = x # xs"
      by (cases "split_newline cs") auto
    show ?thesis
    proof (cases xs)
      case Nil
      with False S Cons.IH show ?thesis by simp
    next
      case (Cons y ys)
      with False S Cons.IH show ?thesis by simp
    qed
  qed
qed

lemma split_newline_no_LF: "LF \<notin> set s \<Longrightarrow> split_newline s = [s]"
  by (induction s) auto

lemma last_split_newline_no_LF: "LF \<notin> set (last (split_newline s))"
proof (induction s)
  case Nil
  show ?case by simp
next
  case (Cons c cs)
  obtain x xs where S: "split_newline cs = x # xs"
    by (cases "split_newline cs") auto
  with Cons show ?case by (cases xs) auto
qed

lemma stream_text_Chunk [simp]: "stream_text (Chunk t # rest) = t @ stream_text rest"
  by (simp add: stream_text_def)

lemma processed_lines_no_done:
  "ReadError \<notin> set reads \<Longrightarrow> LF \<notin> set buf \<Longrightarrow>
   \<forall>l \<in> set (butlast (split_newline (buf @ stream_text reads))). \<not> is_done_line l \<Longrightarrow>
   processed_lines reads buf = split_newline (buf @ stream_text reads)"
proof (induction reads arbitrary: buf)
  case Nil
  then show ?case by (simp add: stream_text_def split_newline_no_LF)
next
  case (Cons rd rest)
  show ?case
  proof (cases rd)
    case ReadError
    with Cons.prems show ?thesis by simp
  next
    case (Chunk t)
    let ?ls = "split_newline (buf @ t)"
    let ?all = "split_newline (buf @ stream_text (rd # rest))"
    have all: "?all = butlast ?ls @ split_newline (last ?ls @ stream_text rest)"
      using split_newline_append[of "buf @ t" "stream_text rest"] by (simp add: Chunk)
    have ne: "split_newline (last ?ls @ stream_text rest) \<noteq> []" by simp
    have bl: "butlast ?all = butlast ?ls @ butlast (split_newline (last ?ls @ stream_text rest))"
      unfolding all using ne by (simp add: butlast_append)
    from Cons.prems(3) bl have nd1: "\<forall>l \<in> set (butlast ?ls). \<not> is_done_line l"
      and nd2: "\<forall>l \<in> set (butlast (split_newline (last ?ls @ stream_text rest))). \<not> is_done_line l"
      by auto
    have tw: "takeWhile (\<lambda>l. \<not> is_done_line l) (butlast ?ls) = butlast ?ls"
      using nd1 by (simp add: takeWhile_eq_all_conv)
    have "processed_lines rest (last ?ls) = split_newline (last ?ls @ stream_text rest)"
      using Cons.IH[of "last ?ls"] Cons.prems(1) nd2 last_split_newline_no_LF by simp
    then have "processed_lines (rd # rest) buf = butlast ?ls @ split_newline (last ?ls @ stream_text rest)"
      by (simp add: Chunk Let_def tw)
    with all show ?thesis by simp
  qed
qed

lemma chat_body_stream:
  "ok r \<Longrightarrow> \<not> json_content_type r \<Longrightarrow> body r = Some reads \<Longrightarrow>
   chat_body parse (Resolved r) = decode_stream parse reads"
  by (simp add: chat_body_def)

lemma event_stream_facts:
  "ok (event_stream reads)" "\<not> json_content_type (event_stream reads)"
  "body (event_stream reads) = Some reads"
  by (simp_all add: event_stream_def json_content_type_def startsWith_def)

lemma chat_body_stream_response:
  "chat_body parse (stream_response reads) = decode_stream parse reads"
  unfolding stream_response_def by (rule chat_body_stream[OF event_stream_facts])

section \<open>Single lines\<close>

lemma for_lines_data:
  "\<not> includes_str payload ''[DONE]'' \<Longrightarrow>
   for_lines parse ((''data: '' @ payload) # rest) st =
     for_lines parse rest (data_event parse payload st)"
  using data_line_facts[of payload]
  by (simp add: for_lines_step is_done_line_def line_step_def)

lemma for_lines_plain:
  "trim line \<noteq> [] \<Longrightarrow> \<not> startsWith line ''data: '' \<Longrightarrow> \<not> startsWith line ''event:'' \<Longrightarrow>
   \<not> startsWith line ''id:'' \<Longrightarrow>
   for_lines parse (line # rest) st =
     for_lines parse rest (onStreamChunk (replace_escaped_newlines line) st)"
  by (simp add: for_lines_step is_done_line_def line_step_def)

lemma for_lines_blank: "trim line = [] \<Longrightarrow> for_lines parse (line # rest) st = for_lines parse rest st"
  by (simp add: for_lines_step is_done_line_def line_step_def)

lemma data_event_fallback: "parse payload = None \<Longrightarrow> data_event parse payload st = catch_data payload st"
  by (simp add: data_event_def try_data_def)

lemma js_or_chain:
  "js_or (js_or (js_or (js_or a b) c) d) e =
     (case find truthy [a, b, c, d] of Some v \<Rightarrow> v | None \<Rightarrow> e)"
  by (simp add: js_or_def)

lemma find_truthy_Some: "find truthy vs = Some v \<Longrightarrow> truthy v"
  by (induction vs) (auto split: if_splits)

lemma emitted_data_event_parsed:
  assumes "parse payload = Some data" "\<not> nullish data"
  shows "emitted (data_event parse payload st) = emitted st @
           (case find truthy (text_fields data) of
              None \<Rightarrow> []
            | Some (JStr s) \<Rightarrow> [replace_escaped_newlines s]
            | Some _ \<Rightarrow> (if trim payload \<noteq> [] then [replace_escaped_newlines payload] else []))"
proof (cases "find truthy (text_fields data)")
  case None
  with assms show ?thesis
    by (simp add: data_event_def try_data_def js_or_chain text_fields_def[symmetric] Let_def)
next
  case (Some v)
  then have "truthy v" by (rule find_truthy_Some)
  with assms Some show ?thesis
    by (cases v)
       (simp_all add: data_event_def try_data_def js_or_chain text_fields_def[symmetric] Let_def
                      catch_data_def onStreamChunk_def)
qed

lemma decode_stream_throws_iff:
  "(\<exists>st. decode_stream parse reads = Inl st) \<longleftrightarrow> ReadError \<in> set reads"
proof
  assume "\<exists>st. decode_stream parse reads = Inl st"
  then show "ReadError \<in> set reads"
    using read_loop_processed[of reads parse "[]" initial]
    by (auto simp: decode_stream_def split: sum.splits)
next
  assume "ReadError \<in> set reads"
  then have "\<exists>st'. read_loop parse reads buf st = Inl st'" for buf st
  proof (induction reads arbitrary: buf st)
    case Nil
    then show ?case by simp
  next
    case (Cons rd rest)
    then show ?case by (cases rd) (auto simp: Let_def)
  qed
  then obtain st' where "read_loop parse reads [] initial = Inl st'" by blast
  then show "\<exists>st. decode_stream parse reads = Inl st"
    by (simp add: decode_stream_def)
qed


section \<open>Claims about the correlation id\<close>

text \<open>
  C3. On a stream read to its end by the streaming decoder, the value returned is the
  \<^verbatim>\<open>agent_message_id\<close> of the last processed line that is an \<^verbatim>\<open>end_metadata\<close> data event
  with a non-empty (truthy) \<^verbatim>\<open>agent_message_id\<close>, each recording overwriting the one before,
  and \<^verbatim>\<open>null\<close> if there is no such line. When no complete line is a terminal marker, the
  processed lines are all the lines of the concatenated text.
\<close>
theorem last_write_wins:
  assumes "ok r" and "\<not> json_content_type r" and "body r = Some reads" and "ReadError \<notin> set reads"
  shows "snd (callChatAPI parse (Resolved r)) =
           Inr (last_id (List.map_filter (recorded_id parse) (processed_lines reads [])))
         \<and> ((\<forall>l \<in> set (butlast (split_newline (stream_text reads))). \<not> is_done_line l) \<longrightarrow>
            snd (callChatAPI parse (Resolved r)) =
              Inr (last_id (List.map_filter (recorded_id parse) (split_newline (stream_text reads)))))"
proof -
  from assms(4) obtain st where st: "decode_stream parse reads = Inr st"
    and id: "agentMessageId st = last_id (List.map_filter (recorded_id parse) (processed_lines reads []))"
    using decode_stream_id by blast
  have body: "chat_body parse (Resolved r) = decode_stream parse reads"
    using assms(1-3) by (rule chat_body_stream)
  have first: "snd (callChatAPI parse (Resolved r)) =
           Inr (last_id (List.map_filter (recorded_id parse) (processed_lines reads [])))"
    by (simp add: callChatAPI_def body st id)
  have "processed_lines reads [] = split_newline (stream_text reads)"
    if "\<forall>l \<in> set (butlast (split_newline (stream_text reads))). \<not> is_done_line l"
    using processed_lines_no_done[OF assms(4), of "[]"] that by simp
  with first show ?thesis by simp
qed

theorem last_write_wins_witness:
  "ok (event_stream two_ids_reads) \<and> \<not> json_content_type (event_stream two_ids_reads)
   \<and> body (event_stream two_ids_reads) = Some two_ids_reads \<and> ReadError \<notin> set two_ids_reads
   \<and> list_all (\<lambda>l. \<not> is_done_line l) (butlast (split_newline (stream_text two_ids_reads)))
   \<and> List.map_filter (recorded_id json_parse) (split_newline (stream_text two_ids_reads))
       = [JStr ''A'', JStr ''B'']
   \<and> snd (callChatAPI json_parse (Resolved (event_stream two_ids_reads))) = Inr (JStr ''B'')"
proof -
  note h = event_stream_facts[of two_ids_reads]
  have h4: "ReadError \<notin> set two_ids_reads" by (simp add: two_ids_reads_def)
  have h5': "list_all (\<lambda>l. \<not> is_done_line l) (butlast (split_newline (stream_text two_ids_reads)))"
    by code_simp
  then have h5: "\<forall>l \<in> set (butlast (split_newline (stream_text two_ids_reads))). \<not> is_done_line l"
    by (simp only: list_all_iff)
  have ids: "List.map_filter (recorded_id json_parse) (split_newline (stream_text two_ids_reads))
       = [JStr ''A'', JStr ''B'']"
    by code_simp
  have v: "last_id [JStr ''A'', JStr ''B''] = JStr ''B''" by (simp add: last_id_def)
  from last_write_wins[OF h h4, of json_parse] h5
  have "snd (callChatAPI json_parse (Resolved (event_stream two_ids_reads))) =
          Inr (last_id (List.map_filter (recorded_id json_parse) (split_newline (stream_text two_ids_reads))))"
    by blast
  then have "snd (callChatAPI json_parse (Resolved (event_stream two_ids_reads))) = Inr (JStr ''B'')"
    by (simp only: ids v)
  with h h4 h5' ids show ?thesis by blast
qed

end
